theory Spec2Isabelle
  imports Main "HOL-Library.Sublist"
begin

section \<open>Python string and list primitives used by the program\<close>

text \<open>
  Text is a \<^typ>\<open>string\<close>: a list of characters, one \<^typ>\<open>char\<close> per code point
  (code points below 256). Every call that can raise in Python returns a sum, with
  the exception on the left; \<open>OtherError\<close> stands for an exception of any other class,
  with its message.
\<close>

datatype py_error = ValueError | IndexError | OtherError string

text \<open>\<^verbatim>\<open>str.isspace\<close> on one character, for the code points below 256.\<close>

definition is_space :: "char \<Rightarrow> bool" where
  "is_space c = (of_char c \<in> {9, 10, 11, 12, 13, 28, 29, 30, 31, 32, 133, 160 :: nat})"

text \<open>\<^verbatim>\<open>s.strip()\<close>: leading and trailing whitespace removed.\<close>

definition py_strip :: "string \<Rightarrow> string" where
  "py_strip s = rev (dropWhile is_space (rev (dropWhile is_space s)))"

text \<open>\<^verbatim>\<open>s.find(sep)\<close>: the index of the first occurrence, if any.\<close>

fun py_find :: "string \<Rightarrow> string \<Rightarrow> nat option" where
  "py_find sep [] = (if sep = [] then Some 0 else None)"
| "py_find sep (c # cs) =
     (if prefix sep (c # cs) then Some 0 else map_option Suc (py_find sep cs))"

text \<open>
  \<^verbatim>\<open>s.split(sep, maxsplit)\<close> for a non-empty separator: occurrences are found from
  the left and do not overlap; at most \<open>maxsplit\<close> of them split when \<open>maxsplit\<close> is
  not negative, and \<open>-1\<close> (the default) means no bound.
\<close>

function split_rec :: "string \<Rightarrow> int \<Rightarrow> string \<Rightarrow> string list" where
  "split_rec sep maxsplit s =
     (if maxsplit = 0 \<or> sep = [] then [s]
      else (case py_find sep s of
              None \<Rightarrow> [s]
            | Some i \<Rightarrow> take i s # split_rec sep (maxsplit - 1) (drop (i + length sep) s)))"
  by pat_completeness auto

termination split_rec
proof (relation "measure (\<lambda>(sep, maxsplit, s). length s)")
  show "wf (measure (\<lambda>(sep, maxsplit, s). length s))" by simp
next
  fix sep :: string and maxsplit :: int and s :: string and i :: nat
  assume a: "\<not> (maxsplit = 0 \<or> sep = [])" and f: "py_find sep s = Some i"
  from a f have "s \<noteq> []" by (cases s) auto
  moreover from a have "0 < length sep" by simp
  ultimately show "((sep, maxsplit - 1, drop (i + length sep) s), (sep, maxsplit, s))
      \<in> measure (\<lambda>(sep, maxsplit, s). length s)"
    by (cases s) auto
qed

declare split_rec.simps [simp del]

text \<open>An empty separator raises \<^verbatim>\<open>ValueError\<close>.\<close>

definition py_split :: "string \<Rightarrow> string \<Rightarrow> int \<Rightarrow> py_error + string list" where
  "py_split s sep maxsplit = (if sep = [] then Inl ValueError else Inr (split_rec sep maxsplit s))"

text \<open>\<^verbatim>\<open>s.replace(old, new)\<close>: every occurrence, found from the left, not overlapping.\<close>

function replace_rec :: "string \<Rightarrow> string \<Rightarrow> string \<Rightarrow> string" where
  "replace_rec old new s =
     (if old = [] then s
      else (case py_find old s of
              None \<Rightarrow> s
            | Some i \<Rightarrow> take i s @ new @ replace_rec old new (drop (i + length old) s)))"
  by pat_completeness auto

termination replace_rec
proof (relation "measure (\<lambda>(old, new, s). length s)")
  show "wf (measure (\<lambda>(old, new, s). length s))" by simp
next
  fix old new s :: string and i :: nat
  assume a: "old \<noteq> []" and f: "py_find old s = Some i"
  from a f have "s \<noteq> []" by (cases s) auto
  moreover from a have "0 < length old" by simp
  ultimately show "((old, new, drop (i + length old) s), (old, new, s))
      \<in> measure (\<lambda>(old, new, s). length s)"
    by (cases s) auto
qed

declare replace_rec.simps [simp del]

definition py_replace :: "string \<Rightarrow> string \<Rightarrow> string \<Rightarrow> string" where
  "py_replace old new s =
     (if old = [] then new @ concat (map (\<lambda>c. c # new) s) else replace_rec old new s)"

text \<open>\<^verbatim>\<open>sep.join(xs)\<close>.\<close>

fun py_join :: "string \<Rightarrow> string list \<Rightarrow> string" where
  "py_join sep [] = []"
| "py_join sep [x] = x"
| "py_join sep (x # y # ys) = x @ sep @ py_join sep (y # ys)"

text \<open>\<^verbatim>\<open>xs.index(x)\<close>: the first position holding a value equal to \<open>x\<close>, or \<^verbatim>\<open>ValueError\<close>.\<close>

fun py_index :: "'a list \<Rightarrow> 'a \<Rightarrow> py_error + nat" where
  "py_index [] x = Inl ValueError"
| "py_index (y # ys) x =
     (if y = x then Inr 0
      else (case py_index ys x of Inl e \<Rightarrow> Inl e | Inr n \<Rightarrow> Inr (Suc n)))"

text \<open>\<^verbatim>\<open>xs[i]\<close> for an index that is not negative, or \<^verbatim>\<open>IndexError\<close>.\<close>

definition py_get :: "'a list \<Rightarrow> nat \<Rightarrow> py_error + 'a" where
  "py_get xs i = (if i < length xs then Inr (xs ! i) else Inl IndexError)"

section \<open>The draft composer: \<^verbatim>\<open>generate_cover_letter\<close>\<close>

text \<open>
  The function builds \<^verbatim>\<open>system_prompt\<close> and \<^verbatim>\<open>user_query\<close>, uses neither, sleeps one
  second and returns the fixed header followed by the stripped template. The arguments
  \<^verbatim>\<open>experience\<close> and \<^verbatim>\<open>job_description\<close> reach only the unused \<^verbatim>\<open>user_query\<close>.
\<close>

definition professional_header :: string where
  "professional_header =
     ''**[Your Name]**\<newline>'' @
     ''[Your Phone Number] | [Your Email Address]\<newline>'' @
     ''[Your LinkedIn/Portfolio URL]\<newline>\<newline>''"

definition mock_letter :: "string \<Rightarrow> string \<Rightarrow> string list \<Rightarrow> string \<Rightarrow> string" where
  "mock_letter job_title company skills tone =
     ''\<newline>    Dear Hiring Team,\<newline>\<newline>    I am writing to express my enthusiastic interest in the **''
     @ job_title @ ''** position at **'' @ company @ ''**. Having closely followed '' @ company
     @ [CHR 0x27] @ ''s innovative work in [Relevant Industry], I am highly motivated by the opportunity to contribute my proven track record in ''
     @ py_join '', '' (take 2 skills)
     @ '', which align directly with the core demands of this role. My experience is centered on driving tangible results and leveraging technical expertise to achieve business objectives.\<newline>\<newline>    Throughout my career, I have consistently exceeded performance goals by focusing on measurable impact. For instance, in a previous role, I successfully [elaborate on a key achievement from the Experience Summary] resulting in a **[use a number/percentage, e.g., 25%] increase in [metric, e.g., operational efficiency]** and **[use another measurable outcome, e.g., $50,000] in cost savings** over a fiscal year. I am confident in my ability to bring the same level of **''
     @ tone
     @ ''** drive and commitment to excellence to your team, immediately addressing the need for a professional skilled in [another highlighted skill].\<newline>\<newline>    # FIX 2: Joining the full list of skills back into a comma-separated string for display\<newline>    My specific technical abilities, including **''
     @ py_join '', '' skills
     @ ''**, are perfectly suited to the challenges outlined in the job description, especially in the areas of [mention a specific challenge or requirement]. I excel at translating complex technical requirements into actionable plans and thrive in fast-paced environments where **''
     @ tone
     @ ''** problem-solving is critical. This blend of hands-on skill and strategic thinking positions me as an ideal candidate.\<newline>\<newline>    I am eager for the opportunity to discuss how my background can directly benefit ''
     @ company
     @ ''. Thank you for your time and consideration.\<newline>\<newline>    Sincerely,\<newline>\<newline>    [Your Name]\<newline>    ''"

definition generate_cover_letter ::
  "string \<Rightarrow> string \<Rightarrow> string list \<Rightarrow> string \<Rightarrow> string \<Rightarrow> string \<Rightarrow> string" where
  "generate_cover_letter job_title company skills experience tone job_description =
     professional_header @ py_strip (mock_letter job_title company skills tone)"

text \<open>
  The blocks of the returned text, as the template lays them out between its blank
  lines: the header, the salutation, the four paragraphs and the two closing lines.
  Lemma \<open>letter_paragraphs\<close> below proves that \<open>generate_cover_letter\<close> returns these
  blocks joined by blank lines.
\<close>

definition letter_blocks :: "string \<Rightarrow> string \<Rightarrow> string list \<Rightarrow> string \<Rightarrow> string list" where
  "letter_blocks job_title company skills tone =
     [''**[Your Name]**\<newline>[Your Phone Number] | [Your Email Address]\<newline>[Your LinkedIn/Portfolio URL]'',
      ''Dear Hiring Team,'',
      ''    I am writing to express my enthusiastic interest in the **''
        @ job_title
        @ ''** position at **''
        @ company
        @ ''**. Having closely followed ''
        @ company
        @ [CHR 0x27]
        @ ''s innovative work in [Relevant Industry], I am highly motivated by the opportunity to contribute my proven track record in ''
        @ py_join '', '' (take 2 skills)
        @ '', which align directly with the core demands of this role. My experience is centered on driving tangible results and leveraging technical expertise to achieve business objectives.'',
      ''    Throughout my career, I have consistently exceeded performance goals by focusing on measurable impact. For instance, in a previous role, I successfully [elaborate on a key achievement from the Experience Summary] resulting in a **[use a number/percentage, e.g., 25%] increase in [metric, e.g., operational efficiency]** and **[use another measurable outcome, e.g., $50,000] in cost savings** over a fiscal year. I am confident in my ability to bring the same level of **''
        @ tone
        @ ''** drive and commitment to excellence to your team, immediately addressing the need for a professional skilled in [another highlighted skill].'',
      ''    # FIX 2: Joining the full list of skills back into a comma-separated string for display\<newline>    My specific technical abilities, including **''
        @ py_join '', '' skills
        @ ''**, are perfectly suited to the challenges outlined in the job description, especially in the areas of [mention a specific challenge or requirement]. I excel at translating complex technical requirements into actionable plans and thrive in fast-paced environments where **''
        @ tone
        @ ''** problem-solving is critical. This blend of hands-on skill and strategic thinking positions me as an ideal candidate.'',
      ''    I am eager for the opportunity to discuss how my background can directly benefit ''
        @ company
        @ ''. Thank you for your time and consideration.'',
      ''    Sincerely,'',
      ''    [Your Name]'']"

section \<open>The markup translator inside \<^verbatim>\<open>create_pdf\<close>\<close>

datatype style = Header | Body_Justify

text \<open>
  What the loop appends to \<^verbatim>\<open>Story\<close>: the object that the library's constructor
  \<^verbatim>\<open>Paragraph(html_para, style)\<close> returned, of a type \<open>'p\<close> the program knows nothing
  about, then a \<^verbatim>\<open>Spacer(1, h)\<close>. The spacer's height is kept in hundredths of an inch
  (\<^verbatim>\<open>0.25 * inch\<close> is 25, \<^verbatim>\<open>0.15 * inch\<close> is 15).
\<close>

datatype 'p flowable = Para 'p | Spacer nat nat

text \<open>
  The loop over \<^verbatim>\<open>temp_html_para\<close>: the flag \<^verbatim>\<open>in_bold\<close> flips at every chunk; a chunk
  met with the flag clear is appended as it is, one met with the flag set is appended
  between \<^verbatim>\<open><b>\<close> and \<^verbatim>\<open></b>\<close>.
\<close>

fun emphasize :: "bool \<Rightarrow> string list \<Rightarrow> string list" where
  "emphasize in_bold [] = []"
| "emphasize in_bold (chunk # chunks) =
     (if \<not> in_bold then chunk # emphasize True chunks
      else (''<b>'' @ chunk @ ''</b>'') # emphasize False chunks)"

text \<open>
  The generic conversion of one block: newlines to \<^verbatim>\<open><br/>\<close>, the alternating loop over
  the chunks between \<^verbatim>\<open>**\<close>, the join, and the two clean-up replacements.
\<close>

definition generic_markup :: "string \<Rightarrow> py_error + string" where
  "generic_markup para_text =
     (let html_para = py_replace ''\<newline>'' ''<br/>'' para_text in
      case py_split html_para ''**'' (- 1) of
        Inl e \<Rightarrow> Inl e
      | Inr chunks \<Rightarrow>
          Inr (py_replace ''</b></b>'' ''</b>''
                 (py_replace ''<b><b>'' ''<b>'' (concat (emphasize False chunks)))))"

text \<open>
  The body of the loop for a block that was not skipped: the markup and the flag
  \<^verbatim>\<open>is_header\<close>, which is \<^verbatim>\<open>paragraphs.index(para_text) == 0\<close>. For a header the markup
  is replaced when the bounded split of the block's own text has three parts.
\<close>

definition block_markup :: "string list \<Rightarrow> string \<Rightarrow> py_error + (string \<times> bool)" where
  "block_markup paragraphs para_text =
     (case py_index paragraphs para_text of
        Inl e \<Rightarrow> Inl e
      | Inr idx \<Rightarrow>
          let is_header = (idx = 0) in
          (case generic_markup para_text of
             Inl e \<Rightarrow> Inl e
           | Inr html_para \<Rightarrow>
               if is_header then
                 (case py_split para_text ''**'' 2 of
                    Inl e \<Rightarrow> Inl e
                  | Inr header_parts \<Rightarrow>
                      if length header_parts = 3 then
                        (case py_get header_parts 1 of
                           Inl e \<Rightarrow> Inl e
                         | Inr name \<Rightarrow>
                             (case py_get header_parts 2 of
                                Inl e \<Rightarrow> Inl e
                              | Inr rest \<Rightarrow>
                                  Inr (''<b>'' @ name @ ''</b><br/>''
                                         @ py_replace ''\<newline>'' ''<br/>'' rest, True)))
                      else Inr (html_para, True))
               else Inr (html_para, False)))"

text \<open>
  The translation that the loop over \<^verbatim>\<open>paragraphs\<close> performs, without the calls into
  the library: a block that is empty after \<^verbatim>\<open>strip()\<close> is skipped, any other block
  gives one styled block, its markup and its style. The first argument is the whole
  list, which \<^verbatim>\<open>index\<close> searches; the second is what is left to visit.
\<close>

fun translate_loop :: "string list \<Rightarrow> string list \<Rightarrow> py_error + (string \<times> style) list" where
  "translate_loop paragraphs [] = Inr []"
| "translate_loop paragraphs (para_text # todo) =
     (if py_strip para_text = [] then translate_loop paragraphs todo
      else (case block_markup paragraphs para_text of
              Inl e \<Rightarrow> Inl e
            | Inr (html_para, is_header) \<Rightarrow>
                (case translate_loop paragraphs todo of
                   Inl e \<Rightarrow> Inl e
                 | Inr blocks \<Rightarrow>
                     Inr ((html_para, if is_header then Header else Body_Justify) # blocks))))"

definition translate :: "string \<Rightarrow> py_error + (string \<times> style) list" where
  "translate cover_letter_text =
     (case py_split cover_letter_text ''\<newline>\<newline>'' (- 1) of
        Inl e \<Rightarrow> Inl e
      | Inr paragraphs \<Rightarrow> translate_loop paragraphs paragraphs)"

text \<open>
  The loop over \<^verbatim>\<open>paragraphs\<close> as \<^verbatim>\<open>create_pdf\<close> runs it. The library's constructor is
  the parameter \<open>paragraph\<close>: it parses the markup and either raises or returns the
  object. It is called inside the loop, once for each block that is not skipped, and no
  \<^verbatim>\<open>try\<close> surrounds the loop, so what it raises leaves the loop at once.
\<close>

fun story_loop ::
  "(string \<Rightarrow> style \<Rightarrow> py_error + 'p) \<Rightarrow> string list \<Rightarrow> string list
     \<Rightarrow> py_error + 'p flowable list" where
  "story_loop paragraph paragraphs [] = Inr []"
| "story_loop paragraph paragraphs (para_text # todo) =
     (if py_strip para_text = [] then story_loop paragraph paragraphs todo
      else (case block_markup paragraphs para_text of
              Inl e \<Rightarrow> Inl e
            | Inr (html_para, is_header) \<Rightarrow>
                (case paragraph html_para (if is_header then Header else Body_Justify) of
                   Inl e \<Rightarrow> Inl e
                 | Inr p \<Rightarrow>
                     (case story_loop paragraph paragraphs todo of
                        Inl e \<Rightarrow> Inl e
                      | Inr story \<Rightarrow>
                          Inr (Para p # Spacer 1 (if is_header then 25 else 15) # story)))))"

text \<open>
  \<^verbatim>\<open>create_pdf\<close>. The renderer is outside the program: \<open>paragraph\<close> is its constructor
  and \<open>doc_build\<close> stands for \<^verbatim>\<open>doc.build(Story)\<close> followed by \<^verbatim>\<open>buffer.getvalue()\<close>, which
  gives either the message of the exception it raised or the bytes written. Only the
  build is inside the \<^verbatim>\<open>try\<close>. The result is the list of messages shown with
  \<^verbatim>\<open>st.error\<close> and what is returned; an exception that leaves \<^verbatim>\<open>create_pdf\<close> is on the
  left. The document template and the two styles are built from constants before the
  loop and are taken to succeed.
\<close>

definition create_pdf ::
  "(string \<Rightarrow> style \<Rightarrow> py_error + 'p) \<Rightarrow> ('p flowable list \<Rightarrow> string + string) \<Rightarrow> string
     \<Rightarrow> py_error + (string list \<times> string option)" where
  "create_pdf paragraph doc_build cover_letter_text =
     (case py_split cover_letter_text ''\<newline>\<newline>'' (- 1) of
        Inl e \<Rightarrow> Inl e
      | Inr paragraphs \<Rightarrow>
          (case story_loop paragraph paragraphs paragraphs of
             Inl e \<Rightarrow> Inl e
           | Inr Story \<Rightarrow>
               (case doc_build Story of
                  Inl e \<Rightarrow> Inr ([''Error building PDF: '' @ e], None)
                | Inr pdf_value \<Rightarrow> Inr ([], Some pdf_value))))"

section \<open>Facts about the string primitives\<close>

lemma py_find_Some:
  "py_find sep s = Some i \<Longrightarrow> prefix sep (drop i s) \<and> i \<le> length s"
proof (induction s arbitrary: i)
  case Nil
  then show ?case by (simp split: if_splits)
next
  case (Cons c cs)
  show ?case
  proof (cases "prefix sep (c # cs)")
    case True
    with Cons.prems show ?thesis by simp
  next
    case False
    with Cons.prems obtain j where "py_find sep cs = Some j" "i = Suc j" by auto
    with Cons.IH show ?thesis by simp
  qed
qed

lemma py_find_at_prefix: "prefix sep s \<Longrightarrow> py_find sep s = Some 0"
  by (cases s) auto

lemma py_find_None: "\<not> sublist sep s \<Longrightarrow> py_find sep s = None"
  by (induction s) (auto simp: sublist_Cons_right)

lemma py_find_None_absent: "py_find sep s = None \<Longrightarrow> \<not> sublist sep s"
proof (induction s)
  case Nil
  then show ?case by (simp split: if_splits)
next
  case (Cons c cs)
  then show ?case by (auto simp: sublist_Cons_right split: if_splits)
qed

lemma py_find_Some_split:
  assumes "py_find sep s = Some i"
  shows "s = take i s @ sep @ drop (i + length sep) s"
proof -
  from py_find_Some [OF assms] obtain r where "drop i s = sep @ r" by (auto simp: prefix_def)
  moreover from this have "drop (i + length sep) s = r"
    by (metis add.commute append_eq_conv_conj drop_drop)
  ultimately show ?thesis by (metis append_take_drop_id)
qed

lemma py_find_Some_first:
  assumes "py_find sep s = Some i" and "sep \<noteq> []"
  shows "\<not> sublist sep (take i s)"
  using assms(1)
proof (induction s arbitrary: i)
  case Nil
  with assms(2) show ?case by simp
next
  case (Cons c cs)
  show ?case
  proof (cases "prefix sep (c # cs)")
    case True
    with Cons.prems assms(2) show ?thesis by simp
  next
    case False
    with Cons.prems obtain j where j: "py_find sep cs = Some j" "i = Suc j" by auto
    from Cons.IH [OF j(1)] have IH: "\<not> sublist sep (take j cs)" .
    have "\<not> prefix sep (c # take j cs)"
    proof
      assume "prefix sep (c # take j cs)"
      moreover have "prefix (c # take j cs) (c # cs)" by (simp add: take_is_prefix)
      ultimately have "prefix sep (c # cs)" by (rule prefix_order.trans)
      with False show False by simp
    qed
    with IH j(2) show ?thesis by (simp add: sublist_Cons_right)
  qed
qed

lemma py_find_first:
  assumes "\<not> sublist sep (p @ butlast sep)" and "sep \<noteq> []"
  shows "py_find sep (p @ sep @ rest) = Some (length p)"
  using assms(1)
proof (induction p)
  case Nil
  show ?case by (simp add: py_find_at_prefix)
next
  case (Cons c p)
  have "\<not> prefix sep ((c # p) @ sep @ rest)"
  proof
    assume pr: "prefix sep ((c # p) @ sep @ rest)"
    have "(c # p) @ sep @ rest = ((c # p) @ butlast sep) @ (last sep # rest)"
      using assms(2) by (simp add: append_butlast_last_id [symmetric] del: append_butlast_last_id)
    moreover have "length sep \<le> length ((c # p) @ butlast sep)" by simp
    ultimately have "prefix sep ((c # p) @ butlast sep)"
      using pr by (metis prefix_length_prefix prefixI nat_le_linear prefix_order.eq_iff prefix_length_le)
    then have "sublist sep ((c # p) @ butlast sep)" by (rule prefix_imp_sublist)
    with Cons.prems show False by simp
  qed
  moreover from Cons.prems have "\<not> sublist sep (p @ butlast sep)"
    by (simp add: sublist_Cons_right)
  ultimately show ?case using Cons.IH by simp
qed

lemma set_split_rec: "p \<in> set (split_rec sep m s) \<Longrightarrow> set p \<subseteq> set s"
proof (induction sep m s rule: split_rec.induct)
  case (1 sep maxsplit s)
  show ?case
  proof (cases "maxsplit = 0 \<or> sep = []")
    case True
    with "1.prems" show ?thesis by (simp add: split_rec.simps)
  next
    case False
    show ?thesis
    proof (cases "py_find sep s")
      case None
      with False "1.prems" show ?thesis by (simp add: split_rec.simps)
    next
      case (Some i)
      with False "1.prems" have "p = take i s \<or> p \<in> set (split_rec sep (maxsplit - 1) (drop (i + length sep) s))"
        by (simp add: split_rec.simps [of sep maxsplit s])
      then show ?thesis
      proof
        assume "p = take i s"
        then show ?thesis by (auto dest: in_set_takeD)
      next
        assume "p \<in> set (split_rec sep (maxsplit - 1) (drop (i + length sep) s))"
        from "1.IH" [OF False Some this] show ?thesis by (auto dest: in_set_dropD)
      qed
    qed
  qed
qed

lemma split_rec_join:
  assumes "sep \<noteq> []" and "\<forall>p \<in> set ps. \<not> sublist sep (p @ butlast sep)" and "ps \<noteq> []"
    and "m < 0"
  shows "split_rec sep m (py_join sep ps) = ps"
  using assms(2-)
proof (induction ps arbitrary: m)
  case Nil
  then show ?case by simp
next
  case (Cons x ps)
  show ?case
  proof (cases ps)
    case Nil
    from Cons.prems have "\<not> sublist sep x" by (auto simp: sublist_append)
    then have "py_find sep x = None" by (rule py_find_None)
    with Nil assms(1) show ?thesis by (simp add: split_rec.simps [of sep m x])
  next
    case (Cons y ys)
    from Cons.prems have "\<not> sublist sep (x @ butlast sep)" by simp
    from py_find_first [OF this assms(1)]
    have f: "py_find sep (x @ sep @ py_join sep ps) = Some (length x)" .
    from Cons.IH [of "m - 1"] Cons.prems Cons
    have "split_rec sep (m - 1) (py_join sep ps) = ps" by simp
    with f Cons Cons.prems assms(1) show ?thesis
      by (simp add: split_rec.simps [of sep m "x @ sep @ py_join sep (y # ys)"])
  qed
qed


lemma py_strip_blank:
  assumes "\<forall>c \<in> set s. is_space c"
  shows "py_strip s = []"
proof -
  from assms have h: "dropWhile is_space s = []" by simp
  show ?thesis unfolding py_strip_def h by simp
qed

lemma py_strip_trim:
  assumes l: "\<forall>c \<in> set l. is_space c" and r: "\<forall>c \<in> set r. is_space c"
    and m: "m \<noteq> []" "\<not> is_space (hd m)" "\<not> is_space (last m)"
  shows "py_strip (l @ m @ r) = m"
proof -
  from m obtain a m' where a: "m = a # m'" "\<not> is_space a" by (cases m) auto
  from m obtain m'' z where z: "m = m'' @ [z]" "\<not> is_space z"
    by (cases m rule: rev_cases) auto
  from l a have 1: "dropWhile is_space (l @ m @ r) = m @ r"
    by (simp add: dropWhile_append)
  from r z have 2: "dropWhile is_space (rev (m @ r)) = rev m"
    by (simp add: dropWhile_append)
  show ?thesis unfolding py_strip_def 1 2 by simp
qed

lemma dropWhile_keeps: "x \<in> set xs \<Longrightarrow> \<not> P x \<Longrightarrow> x \<in> set (dropWhile P xs)"
  by (induction xs) auto

lemma py_strip_nonblank:
  assumes "c \<in> set s" and "\<not> is_space c"
  shows "py_strip s \<noteq> []"
proof -
  from assms have "c \<in> set (dropWhile is_space s)" by (rule dropWhile_keeps)
  then have "c \<in> set (rev (dropWhile is_space s))" by simp
  from dropWhile_keeps [where P = is_space, OF this assms(2)]
  have "c \<in> set (dropWhile is_space (rev (dropWhile is_space s)))" .
  then have "0 < length (dropWhile is_space (rev (dropWhile is_space s)))"
    by (rule length_pos_if_in_set)
  then show ?thesis unfolding py_strip_def by (simp only: length_greater_0_conv rev_is_Nil_conv simp_thms)
qed

lemma nonblank_here: "\<not> is_space c \<Longrightarrow> (py_strip (c # xs) = []) = False"
  using py_strip_nonblank [of c "c # xs"] by simp

lemma nonblank_later: "is_space c \<Longrightarrow> (py_strip (c # xs) = []) = (py_strip xs = [])"
proof
  assume s: "is_space c" and "py_strip (c # xs) = []"
  show "py_strip xs = []"
  proof (rule ccontr)
    assume "py_strip xs \<noteq> []"
    then have "\<exists>d \<in> set xs. \<not> is_space d"
      using py_strip_blank [of xs] by blast
    then obtain d where "d \<in> set (c # xs)" "\<not> is_space d" by auto
    from py_strip_nonblank [OF this] \<open>py_strip (c # xs) = []\<close> show False by simp
  qed
next
  assume s: "is_space c" and e: "py_strip xs = []"
  show "py_strip (c # xs) = []"
  proof (rule ccontr)
    assume "py_strip (c # xs) \<noteq> []"
    then have "\<exists>d \<in> set (c # xs). \<not> is_space d"
      using py_strip_blank [of "c # xs"] by blast
    with s obtain d where "d \<in> set xs" "\<not> is_space d" by auto
    from py_strip_nonblank [OF this] e show False by simp
  qed
qed

lemma space_chars:
  "is_space CHR '' ''" "\<not> is_space CHR ''*''" "\<not> is_space CHR ''D''" "\<not> is_space CHR ''I''"
  "\<not> is_space CHR ''T''" "\<not> is_space CHR ''#''" "\<not> is_space CHR ''S''" "\<not> is_space CHR ''[''"
  by (simp_all add: is_space_def)

lemma py_index_mem: "x \<in> set xs \<Longrightarrow> \<exists>n. py_index xs x = Inr n"
  by (induction xs) auto

lemma py_index_head [simp]: "py_index (x # xs) x = Inr 0"
  by simp

lemma py_index_tail: "y \<noteq> x \<Longrightarrow> x \<in> set ys \<Longrightarrow> \<exists>n. py_index (y # ys) x = Inr (Suc n)"
  using py_index_mem [of x ys] by auto

text \<open>Blank lines (two newlines in a row) in a text that is given piece by piece.\<close>

lemma blank_line_skip:
  "c \<noteq> CHR ''\<newline>'' \<Longrightarrow> sublist ''\<newline>\<newline>'' (c # xs) = sublist ''\<newline>\<newline>'' xs"
  by (simp add: sublist_Cons_right)

lemma blank_line_single:
  "d \<noteq> CHR ''\<newline>'' \<Longrightarrow>
   sublist ''\<newline>\<newline>'' (CHR ''\<newline>'' # d # xs) = sublist ''\<newline>\<newline>'' (d # xs)"
  by (simp add: sublist_Cons_right)

lemma blank_line_end:
  "\<not> sublist ''\<newline>\<newline>'' []" "\<not> sublist ''\<newline>\<newline>'' [c]"
  by (simp_all add: sublist_Cons_right)

lemma blank_line_var:
  assumes "d \<noteq> CHR ''\<newline>''"
  shows "sublist ''\<newline>\<newline>'' (v @ d # xs)
           = (sublist ''\<newline>\<newline>'' v \<or> sublist ''\<newline>\<newline>'' (d # xs))"
proof (induction v)
  case Nil
  show ?case by (simp add: blank_line_end)
next
  case (Cons c v)
  have "prefix ''\<newline>\<newline>'' (c # v @ d # xs) = prefix ''\<newline>\<newline>'' (c # v)"
    using assms by (cases v) auto
  with Cons show ?case by (auto simp: sublist_Cons_right)
qed

lemma blank_line_join:
  assumes "\<forall>s \<in> set ss. \<not> sublist ''\<newline>\<newline>'' s" and "d \<noteq> CHR ''\<newline>''"
  shows "sublist ''\<newline>\<newline>'' (py_join '', '' ss @ d # xs) = sublist ''\<newline>\<newline>'' (d # xs)"
  using assms(1)
proof (induction ss)
  case Nil
  then show ?case by simp
next
  case (Cons s ss)
  show ?case
  proof (cases ss)
    case Nil
    with Cons.prems assms(2) show ?thesis by (simp add: blank_line_var)
  next
    case (Cons t ts)
    have "py_join '', '' (s # ss) @ d # xs = s @ CHR '','' # CHR '' '' # (py_join '', '' ss @ d # xs)"
      unfolding Cons by simp
    with Cons.prems Cons.IH show ?thesis
      by (simp add: blank_line_var blank_line_skip)
  qed
qed

lemma blank_line_free_join:
  assumes "\<forall>s \<in> set ss. \<not> sublist ''\<newline>\<newline>'' s"
  shows "sublist ''\<newline>\<newline>'' (py_join '', '' ss) = False"
proof -
  have "sublist ''\<newline>\<newline>'' (py_join '', '' ss) \<Longrightarrow> sublist ''\<newline>\<newline>'' (py_join '', '' ss @ ''x'')"
    by (auto simp: sublist_append)
  moreover from assms have "\<not> sublist ''\<newline>\<newline>'' (py_join '', '' ss @ ''x'')"
    by (simp add: blank_line_join blank_line_end)
  ultimately show ?thesis by blast
qed

lemma blank_line_free_examples:
  "\<not> sublist ''\<newline>\<newline>'' ''Senior Data Scientist''" "\<not> sublist ''\<newline>\<newline>'' ''Gemini Labs''"
  "\<not> sublist ''\<newline>\<newline>'' ''Confident and Strategic''"
  "\<forall>s \<in> set [''Python'', ''PyTorch'', ''A/B Testing'']. \<not> sublist ''\<newline>\<newline>'' s"
  "\<not> sublist ''\<newline>\<newline>'' ''Data Engineer''" "\<not> sublist ''\<newline>\<newline>'' ''Acme''"
  "\<not> sublist ''\<newline>\<newline>'' ''Formal and Results-Driven''"
  "\<forall>s \<in> set [''SQL'']. \<not> sublist ''\<newline>\<newline>'' s"
  by (simp_all only: list.set ball_simps char.inject simp_thms blank_line_skip blank_line_end)

section \<open>Properties of the emphasis conversion\<close>

lemma length_emphasize: "length (emphasize b xs) = length xs"
  by (induction xs arbitrary: b) auto

lemma nth_emphasize:
  "i < length xs \<Longrightarrow>
   emphasize b xs ! i = (if even i = (\<not> b) then xs ! i else ''<b>'' @ xs ! i @ ''</b>'')"
proof (induction xs arbitrary: b i)
  case Nil
  then show ?case by simp
next
  case (Cons x xs)
  show ?case
  proof (cases i)
    case 0
    then show ?thesis by simp
  next
    case (Suc j)
    with Cons.prems have "j < length xs" by simp
    from Cons.IH [OF this] Suc show ?thesis by simp
  qed
qed

lemma generic_markup_eq:
  "generic_markup para_text =
     Inr (py_replace ''</b></b>'' ''</b>'' (py_replace ''<b><b>'' ''<b>''
       (concat (emphasize False (split_rec ''**'' (- 1) (py_replace ''\<newline>'' ''<br/>'' para_text))))))"
  by (simp add: generic_markup_def py_split_def)

text \<open>
  Claim C1. The chunks of a block between occurrences of \<^verbatim>\<open>**\<close> are styled by position
  alone: the chunks at positions 0, 2, 4, ... (the 1st, 3rd, 5th, ...) are appended as
  they are, those at positions 1, 3, 5, ... (the 2nd, 4th, 6th, ...) between \<^verbatim>\<open><b>\<close>
  and \<^verbatim>\<open></b>\<close>; with an odd number of occurrences the last chunk is a bolded tail.
\<close>

theorem emphasis_by_position:
  fixes para_text :: string
  defines "chunks \<equiv> split_rec ''**'' (- 1) (py_replace ''\<newline>'' ''<br/>'' para_text)"
  shows "generic_markup para_text =
           Inr (py_replace ''</b></b>'' ''</b>'' (py_replace ''<b><b>'' ''<b>''
                  (concat (emphasize False chunks))))
       \<and> length (emphasize False chunks) = length chunks
       \<and> (\<forall>i < length chunks.
             emphasize False chunks ! i =
               (if even i then chunks ! i else ''<b>'' @ chunks ! i @ ''</b>''))
       \<and> (odd (length chunks - 1) \<longrightarrow>
             last (emphasize False chunks) = ''<b>'' @ last chunks @ ''</b>'')"
proof (intro conjI allI impI)
  show "generic_markup para_text =
           Inr (py_replace ''</b></b>'' ''</b>'' (py_replace ''<b><b>'' ''<b>''
                  (concat (emphasize False chunks))))"
    unfolding chunks_def by (rule generic_markup_eq)
  show "length (emphasize False chunks) = length chunks"
    by (rule length_emphasize)
  show "emphasize False chunks ! i =
          (if even i then chunks ! i else ''<b>'' @ chunks ! i @ ''</b>'')"
    if "i < length chunks" for i
    using nth_emphasize [OF that, of False] by simp
  show "last (emphasize False chunks) = ''<b>'' @ last chunks @ ''</b>''"
    if o: "odd (length chunks - 1)"
  proof -
    from o have ne: "chunks \<noteq> []" by (cases chunks) auto
    then have lt: "length chunks - 1 < length chunks" by (cases chunks) auto
    have "emphasize False chunks \<noteq> []"
      using ne length_emphasize [of False chunks] by (metis length_0_conv)
    then have "last (emphasize False chunks) = emphasize False chunks ! (length chunks - 1)"
      by (simp add: last_conv_nth length_emphasize)
    also have "\<dots> = ''<b>'' @ chunks ! (length chunks - 1) @ ''</b>''"
      using nth_emphasize [OF lt, of False] o by simp
    also have "chunks ! (length chunks - 1) = last chunks"
      using ne by (simp add: last_conv_nth)
    finally show ?thesis .
  qed
qed

theorem emphasis_by_position_witness:
  "split_rec ''**'' (- 1) (py_replace ''\<newline>'' ''<br/>'' ''a**b**c**d'') = [''a'', ''b'', ''c'', ''d'']
   \<and> emphasize False [''a'', ''b'', ''c'', ''d''] ! 1 = ''<b>b</b>''
   \<and> emphasize False [''a'', ''b'', ''c'', ''d''] ! 2 = ''c''
   \<and> last (emphasize False [''a'', ''b'', ''c'', ''d'']) = ''<b>d</b>''"
proof -
  have c: "split_rec ''**'' (- 1) (py_replace ''\<newline>'' ''<br/>'' ''a**b**c**d'') = [''a'', ''b'', ''c'', ''d'']"
    by code_simp
  from emphasis_by_position [of "''a**b**c**d''"] show ?thesis
    unfolding c by simp
qed

section \<open>Properties of the translator\<close>

lemma generic_markup_Inr: "\<exists>h. generic_markup para_text = Inr h"
  by (simp add: generic_markup_eq)

lemma block_markup_header:
  "block_markup (para_text # others) para_text =
     (if length (split_rec ''**'' 2 para_text) = 3
      then Inr (''<b>'' @ split_rec ''**'' 2 para_text ! 1 @ ''</b><br/>''
                  @ py_replace ''\<newline>'' ''<br/>'' (split_rec ''**'' 2 para_text ! 2), True)
      else Inr (projr (generic_markup para_text), True))"
  by (simp add: block_markup_def generic_markup_eq py_split_def py_get_def)

lemma block_markup_body:
  assumes "para_text \<noteq> first" and "para_text \<in> set others"
  shows "block_markup (first # others) para_text = Inr (projr (generic_markup para_text), False)"
proof -
  from py_index_tail [of first para_text others] assms
  obtain n where "py_index (first # others) para_text = Inr (Suc n)" by auto
  then show ?thesis
    by (simp add: block_markup_def generic_markup_eq)
qed

lemma block_markup_Inr:
  assumes "para_text \<in> set paragraphs"
  shows "\<exists>r. block_markup paragraphs para_text = Inr r"
proof (cases paragraphs)
  case Nil
  with assms show ?thesis by simp
next
  case (Cons first others)
  show ?thesis
  proof (cases "para_text = first")
    case True
    then show ?thesis unfolding Cons by (auto simp: block_markup_header)
  next
    case False
    with assms Cons have "para_text \<in> set others" by simp
    from block_markup_body [OF False this] show ?thesis unfolding Cons by blast
  qed
qed

lemma translate_loop_Inr:
  "set todo \<subseteq> set paragraphs \<Longrightarrow> \<exists>blocks. translate_loop paragraphs todo = Inr blocks"
proof (induction todo)
  case Nil
  then show ?case by simp
next
  case (Cons p todo)
  then obtain blocks where b: "translate_loop paragraphs todo = Inr blocks" by auto
  from Cons.prems have "p \<in> set paragraphs" by simp
  from block_markup_Inr [OF this] obtain r where "block_markup paragraphs p = Inr r" by blast
  with b show ?case by (cases r) simp
qed

lemma translate_eq:
  "translate draft = translate_loop (split_rec ''\<newline>\<newline>'' (- 1) draft) (split_rec ''\<newline>\<newline>'' (- 1) draft)"
  by (simp add: translate_def py_split_def)

lemma translate_loop_blank:
  "\<forall>p \<in> set todo. py_strip p = [] \<Longrightarrow> translate_loop paragraphs todo = Inr []"
  by (induction todo) auto

lemma translate_never_raises: "\<exists>blocks. translate draft = Inr blocks"
  unfolding translate_eq by (rule translate_loop_Inr) simp

text \<open>
  Claim C5. The translation raises on no input: every \<^verbatim>\<open>index\<close>, \<^verbatim>\<open>split\<close> and subscript
  of the loop succeeds. A draft of whitespace only gives no block at all.
\<close>

theorem translate_total:
  "(\<exists>blocks. translate draft = Inr blocks)
   \<and> ((\<forall>c \<in> set draft. is_space c) \<longrightarrow> translate draft = Inr [])"
proof
  show "\<exists>blocks. translate draft = Inr blocks"
    by (rule translate_never_raises)
  show "(\<forall>c \<in> set draft. is_space c) \<longrightarrow> translate draft = Inr []"
  proof
    assume ws: "\<forall>c \<in> set draft. is_space c"
    have "\<forall>p \<in> set (split_rec ''\<newline>\<newline>'' (- 1) draft). py_strip p = []"
    proof
      fix p assume "p \<in> set (split_rec ''\<newline>\<newline>'' (- 1) draft)"
      from set_split_rec [OF this] ws have "\<forall>c \<in> set p. is_space c" by blast
      then show "py_strip p = []" by (rule py_strip_blank)
    qed
    then show "translate draft = Inr []"
      unfolding translate_eq by (rule translate_loop_blank)
  qed
qed

theorem translate_total_witness:
  "translate ''   \<newline>\<newline>  '' = Inr []"
proof -
  have ws: "\<forall>c \<in> set ''   \<newline>\<newline>  ''. is_space c" by (simp add: is_space_def)
  with translate_total [of "''   \<newline>\<newline>  ''"] show ?thesis by blast
qed

lemma translate_loop_bodies:
  assumes "\<forall>p \<in> set todo. p \<noteq> first" and "set todo \<subseteq> set others"
  shows "\<exists>blocks. translate_loop (first # others) todo = Inr blocks
           \<and> map snd blocks = replicate (length (filter (\<lambda>p. py_strip p \<noteq> []) todo)) Body_Justify"
  using assms
proof (induction todo)
  case Nil
  then show ?case by simp
next
  case (Cons p todo)
  then obtain blocks where b: "translate_loop (first # others) todo = Inr blocks"
    and r: "map snd blocks = replicate (length (filter (\<lambda>p. py_strip p \<noteq> []) todo)) Body_Justify"
    by auto
  from Cons.prems have "p \<noteq> first" and "p \<in> set others" by auto
  from block_markup_body [OF this]
  have "block_markup (first # others) p = Inr (projr (generic_markup p), False)" .
  with b r show ?case by simp
qed

lemma translate_loop_styles:
  assumes "\<forall>p \<in> set others. p \<noteq> first"
  shows "\<exists>blocks. translate_loop (first # others) (first # others) = Inr blocks
           \<and> map snd blocks =
               (if py_strip first = [] then [] else [Header])
               @ replicate (length (filter (\<lambda>p. py_strip p \<noteq> []) others)) Body_Justify"
proof -
  from translate_loop_bodies [OF assms subset_refl]
  obtain blocks where b: "translate_loop (first # others) others = Inr blocks"
    and r: "map snd blocks = replicate (length (filter (\<lambda>p. py_strip p \<noteq> []) others)) Body_Justify"
    by blast
  have "\<exists>h. block_markup (first # others) first = Inr (h, True)"
    by (simp add: block_markup_header)
  then obtain h where h: "block_markup (first # others) first = Inr (h, True)" ..
  with b r show ?thesis by simp
qed

lemma styles_of_result:
  "\<exists>blocks. t = Inr blocks \<and> map snd blocks = X \<Longrightarrow> map snd (projr t) = X"
  by auto

text \<open>
  Claim C2, amended. A block is a header when \<^verbatim>\<open>paragraphs.index\<close> finds its text at
  position 0 of the raw split, blank blocks included. When no later block repeats the
  text of the first raw block, the styles are: one \<open>Header\<close>, first, if the first raw
  block is not blank, and none if it is blank; then one \<open>Body_Justify\<close> for each later
  block that is not blank.
\<close>

theorem header_is_first_raw_block:
  assumes "split_rec ''\<newline>\<newline>'' (- 1) draft = first # others"
    and "\<forall>p \<in> set others. p \<noteq> first"
  shows "\<exists>blocks. translate draft = Inr blocks
           \<and> map snd blocks =
               (if py_strip first = [] then [] else [Header])
               @ replicate (length (filter (\<lambda>p. py_strip p \<noteq> []) others)) Body_Justify"
proof -
  have "translate draft = translate_loop (first # others) (first # others)"
    unfolding translate_eq assms(1) ..
  with translate_loop_styles [OF assms(2)] show ?thesis by simp
qed

theorem header_is_first_raw_block_witness:
  "map snd (projr (translate ''a\<newline>\<newline> \<newline>\<newline>b'')) = [Header, Body_Justify]"
proof -
  have s: "split_rec ''\<newline>\<newline>'' (- 1) ''a\<newline>\<newline> \<newline>\<newline>b'' = [''a'', '' '', ''b'']"
    by code_simp
  have d: "\<forall>p \<in> set ['' '', ''b'']. p \<noteq> ''a''" by simp
  have e: "py_strip ''a'' \<noteq> []" "py_strip '' '' = []" "py_strip ''b'' \<noteq> []"
    by (simp_all add: py_strip_def is_space_def)
  from header_is_first_raw_block [OF s d] e show ?thesis by auto
qed

text \<open>
  Claim C2 as stated fails for a draft that starts with a blank line: the first raw
  block is empty and skipped, and the first surviving block is a body block.
\<close>

theorem leading_blank_line_counterexample:
  "translate ''\<newline>\<newline>abc'' = Inr [(''abc'', Body_Justify)]"
  by code_simp

text \<open>A later block with the text of the first one is found at position 0 as well.\<close>

lemma repeated_first_block_example:
  "translate ''a\<newline>\<newline>b\<newline>\<newline>a'' = Inr [(''a'', Header), (''b'', Body_Justify), (''a'', Header)]"
  by code_simp

section \<open>The header special case\<close>

text \<open>
  Claim C4. The header \<^verbatim>\<open>**Jane Doe**\<close>, newline, \<^verbatim>\<open>phone | email\<close>, newline, \<^verbatim>\<open>url\<close> is
  expected to give one \<^verbatim>\<open><br/>\<close> for each newline. The header path appends its own
  \<^verbatim>\<open><br/>\<close> after the name and then converts the newline that follows the name as
  well, so the markup holds two \<^verbatim>\<open><br/>\<close> between the name and the next line.
\<close>

theorem header_example_markup:
  "translate ''**Jane Doe**\<newline>phone | email\<newline>url''
     = Inr [(''<b>Jane Doe</b><br/><br/>phone | email<br/>url'', Header)]"
  by code_simp

text \<open>
  For a first block whose bounded split on \<^verbatim>\<open>**\<close> does not give three parts, the markup
  is that of the generic conversion, and nothing raises.
\<close>

lemma header_falls_back:
  assumes "length (split_rec ''**'' 2 para_text) \<noteq> 3"
  shows "\<exists>g. generic_markup para_text = Inr g
           \<and> block_markup (para_text # others) para_text = Inr (g, True)"
  using assms by (simp add: block_markup_header generic_markup_eq)

text \<open>
  Claim C6. With three parts the claim expects the second part in bold followed by the
  third part with its newlines converted. The header path writes a \<^verbatim>\<open><br/>\<close> of its own
  between the two, also where the text has no newline: the header \<^verbatim>\<open>**A**b\<close> gets a
  line break that its text does not hold.
\<close>

theorem header_break_without_newline:
  "translate ''**A**b'' = Inr [(''<b>A</b><br/>b'', Header)]"
  by code_simp



section \<open>The clean-up of doubled markers\<close>

text \<open>
  Where the pattern \<open>M\<close> can lie in \<open>a @ b\<close>: inside \<open>a\<close>, inside \<open>b\<close>, or across the
  joint, some \<open>k\<close> of its characters ending \<open>a\<close> and the others starting \<open>b\<close>.
\<close>

lemma sublist_append_straddle:
  assumes "sublist M (a @ b)" and "\<not> sublist M a" and "\<not> sublist M b"
  shows "\<exists>k. 0 < k \<and> k < length M \<and> suffix (take k M) a \<and> prefix (drop k M) b"
proof -
  from assms obtain xs1 xs2 where M: "M = xs1 @ xs2" and s: "suffix xs1 a" and p: "prefix xs2 b"
    unfolding sublist_append by blast
  have "xs1 \<noteq> []"
  proof
    assume "xs1 = []"
    with M p have "prefix M b" by simp
    with assms(3) show False by auto
  qed
  moreover have "xs2 \<noteq> []"
  proof
    assume "xs2 = []"
    with M s have "suffix M a" by simp
    with assms(2) show False by auto
  qed
  ultimately have "0 < length xs1" "length xs1 < length M" using M by auto
  moreover from M s p have "suffix (take (length xs1) M) a" "prefix (drop (length xs1) M) b" by auto
  ultimately show ?thesis by blast
qed

lemma below_cases:
  "(k::nat) < 6 \<Longrightarrow> 0 < k \<Longrightarrow> k = 1 \<or> k = 2 \<or> k = 3 \<or> k = 4 \<or> k = 5"
  "(k::nat) < 8 \<Longrightarrow> 0 < k \<Longrightarrow> k = 1 \<or> k = 2 \<or> k = 3 \<or> k = 4 \<or> k = 5 \<or> k = 6 \<or> k = 7"
  by arith+

lemma open_open_append:
  assumes "sublist ''<b><b>'' (a @ b)" and "\<not> sublist ''<b><b>'' a" and "\<not> sublist ''<b><b>'' b"
  shows "(suffix ''<'' a \<and> prefix ''b><b>'' b) \<or> (suffix ''<b'' a \<and> prefix ''><b>'' b)
       \<or> (suffix ''<b>'' a \<and> prefix ''<b>'' b) \<or> (suffix ''<b><'' a \<and> prefix ''b>'' b)
       \<or> (suffix ''<b><b'' a \<and> prefix ''>'' b)"
proof -
  from sublist_append_straddle [OF assms] obtain k where
    k: "0 < k" "k < 6" and s: "suffix (take k ''<b><b>'') a" and p: "prefix (drop k ''<b><b>'') b"
    by auto
  from below_cases(1) [OF k(2) k(1)] s p show ?thesis by auto
qed

lemma close_close_append:
  assumes "sublist ''</b></b>'' (a @ b)" and "\<not> sublist ''</b></b>'' a"
    and "\<not> sublist ''</b></b>'' b"
  shows "(suffix ''<'' a \<and> prefix ''/b></b>'' b) \<or> (suffix ''</'' a \<and> prefix ''b></b>'' b)
       \<or> (suffix ''</b'' a \<and> prefix ''></b>'' b) \<or> (suffix ''</b>'' a \<and> prefix ''</b>'' b)
       \<or> (suffix ''</b><'' a \<and> prefix ''/b>'' b) \<or> (suffix ''</b></'' a \<and> prefix ''b>'' b)
       \<or> (suffix ''</b></b'' a \<and> prefix ''>'' b)"
proof -
  from sublist_append_straddle [OF assms] obtain k where
    k: "0 < k" "k < 8" and s: "suffix (take k ''</b></b>'') a" and p: "prefix (drop k ''</b></b>'') b"
    by auto
  from below_cases(2) [OF k(2) k(1)] s p show ?thesis by auto
qed

lemma short_markers:
  "\<not> sublist ''<b><b>'' ''<b>''" "\<not> sublist ''</b></b>'' ''</b>''"
  by (simp_all add: sublist_Cons_right)

text \<open>Removing one of two adjacent copies of \<open>m\<close> creates no pattern that does not hold \<open>m\<close>.\<close>

lemma delete_one_copy:
  assumes "\<not> sublist m P" and "\<not> sublist P (a @ m @ m @ y)"
  shows "\<not> sublist P (a @ m @ y)"
proof
  assume "sublist P (a @ m @ y)"
  then have "sublist P ((a @ m) @ y)" by simp
  then consider "sublist P (a @ m)" | "sublist P y"
    | p1 p2 where "P = p1 @ p2" "suffix p1 (a @ m)" "prefix p2 y"
    unfolding sublist_append by blast
  then show False
  proof cases
    case 1
    then have "sublist P ((a @ m) @ (m @ y))" unfolding sublist_append by blast
    with assms(2) show ?thesis by simp
  next
    case 2
    then have "sublist P ((a @ m @ m) @ y)" unfolding sublist_append by blast
    with assms(2) show ?thesis by simp
  next
    case 3
    from 3(3) obtain y' where y: "y = p2 @ y'" by (auto simp: prefix_def)
    from 3(2) consider "suffix p1 m" | p1' where "p1 = p1' @ m"
      unfolding suffix_append by blast
    then show ?thesis
    proof cases
      case 1
      then obtain m' where "m = m' @ p1" by (auto simp: suffix_def)
      with y 3(1) have "a @ m @ m @ y = (a @ m @ m') @ P @ y'" by simp
      then have "sublist P (a @ m @ m @ y)" by (metis sublist_appendI)
      with assms(2) show ?thesis ..
    next
      case 2
      with 3(1) have "P = p1' @ m @ p2" by simp
      then have "sublist m P" by (metis sublist_appendI)
      with assms(1) show ?thesis ..
    qed
  qed
qed

lemma replace_keeps_absent:
  assumes "\<not> sublist m P"
  shows "\<not> sublist P (u @ s) \<Longrightarrow> \<not> sublist P (u @ replace_rec (m @ m) m s)"
proof (induction "length s" arbitrary: s u rule: less_induct)
  case less
  show ?case
  proof (cases "m = []")
    case True
    with less.prems show ?thesis by (simp add: replace_rec.simps [of "[]"])
  next
    case False
    show ?thesis
    proof (cases "py_find (m @ m) s")
      case None
      with less.prems show ?thesis by (simp add: replace_rec.simps [of "m @ m" m s])
    next
      case (Some i)
      let ?y = "drop (i + length (m @ m)) s"
      from py_find_Some_split [OF Some] have s: "s = take i s @ (m @ m) @ ?y" .
      from False have "0 < length (m @ m)" by simp
      moreover from s False have "s \<noteq> []" by auto
      ultimately have len: "length ?y < length s" by simp
      from less.prems s have "\<not> sublist P ((u @ take i s) @ m @ m @ ?y)"
        by (metis append_assoc)
      from delete_one_copy [OF assms this]
      have "\<not> sublist P ((u @ take i s @ m) @ ?y)" by simp
      from less.hyps [OF len this]
      have "\<not> sublist P (u @ take i s @ m @ replace_rec (m @ m) m ?y)" by simp
      with Some False show ?thesis by (simp add: replace_rec.simps [of "m @ m" m s])
    qed
  qed
qed

text \<open>What a replaced text starts with, the text started with.\<close>

lemma replace_open_prefix:
  assumes "prefix ''<b>'' (replace_rec ''<b><b>'' ''<b>'' t)"
  shows "prefix ''<b>'' t"
proof (cases "py_find ''<b><b>'' t")
  case None
  with assms show ?thesis by (simp add: replace_rec.simps [of _ _ t])
next
  case (Some j)
  let ?R = "replace_rec ''<b><b>'' ''<b>'' (drop (j + length ''<b><b>'') t)"
  from py_find_Some_split [OF Some] have t: "t = take j t @ ''<b><b>'' @ drop (j + length ''<b><b>'') t" .
  from assms Some have "prefix ''<b>'' (take j t @ ''<b>'' @ ?R)"
    by (simp add: replace_rec.simps [of _ _ t])
  then consider "prefix ''<b>'' (take j t)"
    | us where "''<b>'' = take j t @ us" "prefix us (''<b>'' @ ?R)"
    unfolding prefix_append by blast
  then show ?thesis
  proof cases
    case 1
    then show ?thesis using take_is_prefix prefix_order.trans by blast
  next
    case 2
    then have "take j t = [] \<or> take j t = ''<b>''"
      by (auto simp: Cons_eq_append_conv)
    then show ?thesis
    proof
      assume "take j t = []"
      with t have "t = ''<b>'' @ (''<b>'' @ drop (j + length ''<b><b>'') t)" by simp
      then show ?thesis by (metis prefixI)
    next
      assume "take j t = ''<b>''"
      then show ?thesis by (metis take_is_prefix)
    qed
  qed
qed

lemma replace_close_prefix:
  assumes "prefix ''</b>'' (replace_rec ''</b></b>'' ''</b>'' t)"
  shows "prefix ''</b>'' t"
proof (cases "py_find ''</b></b>'' t")
  case None
  with assms show ?thesis by (simp add: replace_rec.simps [of _ _ t])
next
  case (Some j)
  let ?R = "replace_rec ''</b></b>'' ''</b>'' (drop (j + length ''</b></b>'') t)"
  from py_find_Some_split [OF Some]
  have t: "t = take j t @ ''</b></b>'' @ drop (j + length ''</b></b>'') t" .
  from assms Some have "prefix ''</b>'' (take j t @ ''</b>'' @ ?R)"
    by (simp add: replace_rec.simps [of _ _ t])
  then consider "prefix ''</b>'' (take j t)"
    | us where "''</b>'' = take j t @ us" "prefix us (''</b>'' @ ?R)"
    unfolding prefix_append by blast
  then show ?thesis
  proof cases
    case 1
    then show ?thesis using take_is_prefix prefix_order.trans by blast
  next
    case 2
    then have "take j t = [] \<or> take j t = ''</b>''"
      by (auto simp: Cons_eq_append_conv)
    then show ?thesis
    proof
      assume "take j t = []"
      with t have "t = ''</b>'' @ (''</b>'' @ drop (j + length ''</b></b>'') t)" by simp
      then show ?thesis by (metis prefixI)
    next
      assume "take j t = ''</b>''"
      then show ?thesis by (metis take_is_prefix)
    qed
  qed
qed

text \<open>
  One pass of \<^verbatim>\<open>replace\<close> leaves no doubled marker when no three markers stood in a
  row.
\<close>

lemma collapse_open:
  "\<not> sublist ''<b><b><b>'' s \<Longrightarrow> \<not> sublist ''<b><b>'' (replace_rec ''<b><b>'' ''<b>'' s)"
proof (induction "''<b><b>''" "''<b>''" s rule: replace_rec.induct)
  case (1 s)
  show ?case
  proof (cases "py_find ''<b><b>'' s")
    case None
    then show ?thesis by (simp add: replace_rec.simps [of _ _ s] py_find_None_absent)
  next
    case (Some i)
    let ?x = "take i s"
    let ?y = "drop (i + length ''<b><b>'') s"
    let ?R = "replace_rec ''<b><b>'' ''<b>'' ?y"
    from py_find_Some_split [OF Some] have s: "s = ?x @ ''<b><b>'' @ ?y" .
    from "1.prems" have "\<not> sublist ''<b><b><b>'' ?y"
      using sublist_drop sublist_order.order.trans by blast
    with "1.hyps" Some have IH: "\<not> sublist ''<b><b>'' ?R" by simp
    from Some have F1: "\<not> sublist ''<b><b>'' ?x" by (rule py_find_Some_first) simp
    have F2: "\<not> prefix ''<b>'' ?y"
    proof
      assume "prefix ''<b>'' ?y"
      then obtain y' where "?y = ''<b>'' @ y'" by (auto simp: prefix_def)
      with s have "s = ?x @ ''<b><b><b>'' @ y'" by simp
      then have "sublist ''<b><b><b>'' s" by (metis sublist_appendI)
      with "1.prems" show False ..
    qed
    then have F3: "\<not> prefix ''<b>'' ?R" using replace_open_prefix by blast
    have F4: "\<not> suffix ''<b>'' ?x"
    proof
      assume "suffix ''<b>'' ?x"
      then obtain x' where "?x = x' @ ''<b>''" by (auto simp: suffix_def)
      with s have "s = x' @ ''<b><b><b>'' @ ?y" by simp
      then have "sublist ''<b><b><b>'' s" by (metis sublist_appendI)
      with "1.prems" show False ..
    qed
    have a: "\<not> sublist ''<b><b>'' (''<b>'' @ ?R)"
    proof
      assume "sublist ''<b><b>'' (''<b>'' @ ?R)"
      from open_open_append [OF this short_markers(1) IH] F3 show False
        by (simp add: suffix_Cons)
    qed
    have "\<not> sublist ''<b><b>'' (?x @ ''<b>'' @ ?R)"
    proof
      assume "sublist ''<b><b>'' (?x @ ''<b>'' @ ?R)"
      from open_open_append [OF this F1 a] F4 show False by simp
    qed
    with Some show ?thesis by (simp add: replace_rec.simps [of _ _ s])
  qed
qed

lemma collapse_close:
  "\<not> sublist ''</b></b></b>'' s \<Longrightarrow> \<not> sublist ''</b></b>'' (replace_rec ''</b></b>'' ''</b>'' s)"
proof (induction "''</b></b>''" "''</b>''" s rule: replace_rec.induct)
  case (1 s)
  show ?case
  proof (cases "py_find ''</b></b>'' s")
    case None
    then show ?thesis by (simp add: replace_rec.simps [of _ _ s] py_find_None_absent)
  next
    case (Some i)
    let ?x = "take i s"
    let ?y = "drop (i + length ''</b></b>'') s"
    let ?R = "replace_rec ''</b></b>'' ''</b>'' ?y"
    from py_find_Some_split [OF Some] have s: "s = ?x @ ''</b></b>'' @ ?y" .
    from "1.prems" have "\<not> sublist ''</b></b></b>'' ?y"
      using sublist_drop sublist_order.order.trans by blast
    with "1.hyps" Some have IH: "\<not> sublist ''</b></b>'' ?R" by simp
    from Some have F1: "\<not> sublist ''</b></b>'' ?x" by (rule py_find_Some_first) simp
    have F2: "\<not> prefix ''</b>'' ?y"
    proof
      assume "prefix ''</b>'' ?y"
      then obtain y' where "?y = ''</b>'' @ y'" by (auto simp: prefix_def)
      with s have "s = ?x @ ''</b></b></b>'' @ y'" by simp
      then have "sublist ''</b></b></b>'' s" by (metis sublist_appendI)
      with "1.prems" show False ..
    qed
    then have F3: "\<not> prefix ''</b>'' ?R" using replace_close_prefix by blast
    have F4: "\<not> suffix ''</b>'' ?x"
    proof
      assume "suffix ''</b>'' ?x"
      then obtain x' where "?x = x' @ ''</b>''" by (auto simp: suffix_def)
      with s have "s = x' @ ''</b></b></b>'' @ ?y" by simp
      then have "sublist ''</b></b></b>'' s" by (metis sublist_appendI)
      with "1.prems" show False ..
    qed
    have a: "\<not> sublist ''</b></b>'' (''</b>'' @ ?R)"
    proof
      assume "sublist ''</b></b>'' (''</b>'' @ ?R)"
      from close_close_append [OF this short_markers(2) IH] F3 show False
        by (simp add: suffix_Cons)
    qed
    have "\<not> sublist ''</b></b>'' (?x @ ''</b>'' @ ?R)"
    proof
      assume "sublist ''</b></b>'' (?x @ ''</b>'' @ ?R)"
      from close_close_append [OF this F1 a] F4 show False by simp
    qed
    with Some show ?thesis by (simp add: replace_rec.simps [of _ _ s])
  qed
qed

lemma cleanup_collapses:
  assumes "\<not> sublist ''<b><b><b>'' joined" and "\<not> sublist ''</b></b></b>'' joined"
  shows "\<not> sublist ''<b><b>'' (py_replace ''</b></b>'' ''</b>'' (py_replace ''<b><b>'' ''<b>'' joined))"
    and "\<not> sublist ''</b></b>'' (py_replace ''</b></b>'' ''</b>'' (py_replace ''<b><b>'' ''<b>'' joined))"
proof -
  let ?s1 = "replace_rec ''<b><b>'' ''<b>'' joined"
  have o: "''<b><b>'' = ''<b>'' @ ''<b>''" and c: "''</b></b>'' = ''</b>'' @ ''</b>''" by simp_all
  from assms(1) have 1: "\<not> sublist ''<b><b>'' ?s1" by (rule collapse_open)
  have "\<not> sublist ''<b>'' ''</b></b></b>''" by (simp add: sublist_Cons_right)
  from replace_keeps_absent [OF this, of "[]" joined] assms(2)
  have 2: "\<not> sublist ''</b></b></b>'' ?s1" by simp
  have "\<not> sublist ''</b>'' ''<b><b>''" by (simp add: sublist_Cons_right)
  from replace_keeps_absent [OF this, of "[]" ?s1] 1
  have 3: "\<not> sublist ''<b><b>'' (replace_rec ''</b></b>'' ''</b>'' ?s1)" by simp
  from 2 have 4: "\<not> sublist ''</b></b>'' (replace_rec ''</b></b>'' ''</b>'' ?s1)"
    by (rule collapse_close)
  from 3 show "\<not> sublist ''<b><b>'' (py_replace ''</b></b>'' ''</b>'' (py_replace ''<b><b>'' ''<b>'' joined))"
    by (simp add: py_replace_def)
  from 4 show "\<not> sublist ''</b></b>'' (py_replace ''</b></b>'' ''</b>'' (py_replace ''<b><b>'' ''<b>'' joined))"
    by (simp add: py_replace_def)
qed

text \<open>
  Claim C7, amended. On the generic path, which every body block takes and a first
  block takes when its bounded split does not give three parts: when the joined output
  of the emphasis conversion holds no three opening markers in a row and no three
  closing markers in a row, the markup holds no two opening markers in a row and no
  two closing markers in a row, every doubled run having collapsed into one marker.
  The block \<^verbatim>\<open>x****y\<close> is such a block, and so is \<^verbatim>\<open>**<b>x**\<close>, where the clean-up
  removes a marker.
\<close>

theorem cleanup_collapses_doubled_markers:
  fixes para_text :: string
  defines "joined \<equiv>
    concat (emphasize False (split_rec ''**'' (- 1) (py_replace ''\<newline>'' ''<br/>'' para_text)))"
  assumes "\<not> sublist ''<b><b><b>'' joined" and "\<not> sublist ''</b></b></b>'' joined"
  shows "\<exists>h. generic_markup para_text = Inr h
           \<and> \<not> sublist ''<b><b>'' h \<and> \<not> sublist ''</b></b>'' h
           \<and> (para_text \<noteq> first \<longrightarrow> para_text \<in> set others \<longrightarrow>
                block_markup (first # others) para_text = Inr (h, False))
           \<and> (length (split_rec ''**'' 2 para_text) \<noteq> 3 \<longrightarrow>
                block_markup (para_text # others) para_text = Inr (h, True))"
proof -
  let ?h = "py_replace ''</b></b>'' ''</b>'' (py_replace ''<b><b>'' ''<b>'' joined)"
  have g: "generic_markup para_text = Inr ?h"
    unfolding joined_def by (rule generic_markup_eq)
  from cleanup_collapses [OF assms(2,3)]
  have c: "\<not> sublist ''<b><b>'' ?h" "\<not> sublist ''</b></b>'' ?h" .
  have b: "block_markup (first # others) para_text = Inr (?h, False)"
    if "para_text \<noteq> first" "para_text \<in> set others"
    using block_markup_body [OF that] g by simp
  have f: "block_markup (para_text # others) para_text = Inr (?h, True)"
    if "length (split_rec ''**'' 2 para_text) \<noteq> 3"
    using that g by (simp add: block_markup_header)
  from g c b f show ?thesis by blast
qed

theorem cleanup_collapses_doubled_markers_witness:
  "block_markup [''Dear team,'', ''**<b>x**''] ''**<b>x**'' = Inr (''<b>x</b>'', False)
   \<and> block_markup [''Dear team,'', ''x****y''] ''x****y'' = Inr (''x<b></b>y'', False)"
proof -
  have j1: "concat (emphasize False (split_rec ''**'' (- 1) (py_replace ''\<newline>'' ''<br/>'' ''**<b>x**'')))
      = ''<b><b>x</b>''" by code_simp
  have j2: "concat (emphasize False (split_rec ''**'' (- 1) (py_replace ''\<newline>'' ''<br/>'' ''x****y'')))
      = ''x<b></b>y''" by code_simp
  have n: "\<not> sublist ''<b><b><b>'' ''<b><b>x</b>''" "\<not> sublist ''</b></b></b>'' ''<b><b>x</b>''"
    "\<not> sublist ''<b><b><b>'' ''x<b></b>y''" "\<not> sublist ''</b></b></b>'' ''x<b></b>y''"
    by (simp_all add: sublist_Cons_right)
  have g1: "generic_markup ''**<b>x**'' = Inr ''<b>x</b>''" by code_simp
  have g2: "generic_markup ''x****y'' = Inr ''x<b></b>y''" by code_simp
  from cleanup_collapses_doubled_markers [of "''**<b>x**''" "''Dear team,''" "[''**<b>x**'']"] n(1,2)
  have 1: "block_markup [''Dear team,'', ''**<b>x**''] ''**<b>x**'' = Inr (''<b>x</b>'', False)"
    unfolding j1 g1 by simp
  from cleanup_collapses_doubled_markers [of "''x****y''" "''Dear team,''" "[''x****y'']"] n(3,4)
  have 2: "block_markup [''Dear team,'', ''x****y''] ''x****y'' = Inr (''x<b></b>y'', False)"
    unfolding j2 g2 by simp
  from 1 2 show ?thesis ..
qed

text \<open>
  Claim C7 as stated fails for a body block where three opening markers stand in a
  row after the conversion: \<^verbatim>\<open>replace\<close> makes one pass from the left and leaves two.
\<close>

theorem doubled_marker_counterexample:
  "translate ''Dear team,\<newline>\<newline>**<b><b>x**''
       = Inr [(''Dear team,'', Header), (''<b><b>x</b>'', Body_Justify)]"
  by code_simp

text \<open>
  The header special case overwrites the markup after the clean-up has run, so its
  own output is not cleaned.
\<close>

lemma header_path_not_cleaned_example:
  "translate ''**<b>x**y'' = Inr [(''<b><b>x</b><br/>y'', Header)]"
  by code_simp

section \<open>The composed letter\<close>

lemma letter_paragraphs:
  "generate_cover_letter job_title company skills experience tone job_description =
     py_join ''\<newline>\<newline>'' (letter_blocks job_title company skills tone)"
proof -
  let ?m = "''Dear Hiring Team,''
       @ ''\<newline>\<newline>'' @ ''    I am writing to express my enthusiastic interest in the **''
         @ job_title
         @ ''** position at **''
         @ company
         @ ''**. Having closely followed ''
         @ company
         @ [CHR 0x27]
         @ ''s innovative work in [Relevant Industry], I am highly motivated by the opportunity to contribute my proven track record in ''
         @ py_join '', '' (take 2 skills)
         @ '', which align directly with the core demands of this role. My experience is centered on driving tangible results and leveraging technical expertise to achieve business objectives.''
       @ ''\<newline>\<newline>'' @ ''    Throughout my career, I have consistently exceeded performance goals by focusing on measurable impact. For instance, in a previous role, I successfully [elaborate on a key achievement from the Experience Summary] resulting in a **[use a number/percentage, e.g., 25%] increase in [metric, e.g., operational efficiency]** and **[use another measurable outcome, e.g., $50,000] in cost savings** over a fiscal year. I am confident in my ability to bring the same level of **''
         @ tone
         @ ''** drive and commitment to excellence to your team, immediately addressing the need for a professional skilled in [another highlighted skill].''
       @ ''\<newline>\<newline>'' @ ''    # FIX 2: Joining the full list of skills back into a comma-separated string for display\<newline>    My specific technical abilities, including **''
         @ py_join '', '' skills
         @ ''**, are perfectly suited to the challenges outlined in the job description, especially in the areas of [mention a specific challenge or requirement]. I excel at translating complex technical requirements into actionable plans and thrive in fast-paced environments where **''
         @ tone
         @ ''** problem-solving is critical. This blend of hands-on skill and strategic thinking positions me as an ideal candidate.''
       @ ''\<newline>\<newline>'' @ ''    I am eager for the opportunity to discuss how my background can directly benefit ''
         @ company
         @ ''. Thank you for your time and consideration.''
       @ ''\<newline>\<newline>'' @ ''    Sincerely,''
       @ ''\<newline>\<newline>'' @ ''    [Your Name]''"
  have l0: "''\<newline>    Dear Hiring Team,\<newline>\<newline>    I am writing to express my enthusiastic interest in the **'' =
      ''\<newline>    ''
      @ ''Dear Hiring Team,''
      @ ''\<newline>\<newline>''
      @ ''    I am writing to express my enthusiastic interest in the **''"
    by (simp only: append.simps)
  have l4: "'', which align directly with the core demands of this role. My experience is centered on driving tangible results and leveraging technical expertise to achieve business objectives.\<newline>\<newline>    Throughout my career, I have consistently exceeded performance goals by focusing on measurable impact. For instance, in a previous role, I successfully [elaborate on a key achievement from the Experience Summary] resulting in a **[use a number/percentage, e.g., 25%] increase in [metric, e.g., operational efficiency]** and **[use another measurable outcome, e.g., $50,000] in cost savings** over a fiscal year. I am confident in my ability to bring the same level of **'' =
      '', which align directly with the core demands of this role. My experience is centered on driving tangible results and leveraging technical expertise to achieve business objectives.''
      @ ''\<newline>\<newline>''
      @ ''    Throughout my career, I have consistently exceeded performance goals by focusing on measurable impact. For instance, in a previous role, I successfully [elaborate on a key achievement from the Experience Summary] resulting in a **[use a number/percentage, e.g., 25%] increase in [metric, e.g., operational efficiency]** and **[use another measurable outcome, e.g., $50,000] in cost savings** over a fiscal year. I am confident in my ability to bring the same level of **''"
    by (simp only: append.simps)
  have l5: "''** drive and commitment to excellence to your team, immediately addressing the need for a professional skilled in [another highlighted skill].\<newline>\<newline>    # FIX 2: Joining the full list of skills back into a comma-separated string for display\<newline>    My specific technical abilities, including **'' =
      ''** drive and commitment to excellence to your team, immediately addressing the need for a professional skilled in [another highlighted skill].''
      @ ''\<newline>\<newline>''
      @ ''    # FIX 2: Joining the full list of skills back into a comma-separated string for display\<newline>    My specific technical abilities, including **''"
    by (simp only: append.simps)
  have l7: "''** problem-solving is critical. This blend of hands-on skill and strategic thinking positions me as an ideal candidate.\<newline>\<newline>    I am eager for the opportunity to discuss how my background can directly benefit '' =
      ''** problem-solving is critical. This blend of hands-on skill and strategic thinking positions me as an ideal candidate.''
      @ ''\<newline>\<newline>''
      @ ''    I am eager for the opportunity to discuss how my background can directly benefit ''"
    by (simp only: append.simps)
  have l8: "''. Thank you for your time and consideration.\<newline>\<newline>    Sincerely,\<newline>\<newline>    [Your Name]\<newline>    '' =
      ''. Thank you for your time and consideration.''
      @ ''\<newline>\<newline>''
      @ ''    Sincerely,''
      @ ''\<newline>\<newline>''
      @ ''    [Your Name]''
      @ ''\<newline>    ''"
    by (simp only: append.simps)
  have h: "professional_header = ''**[Your Name]**\<newline>[Your Phone Number] | [Your Email Address]\<newline>[Your LinkedIn/Portfolio URL]'' @ ''\<newline>\<newline>''"
    unfolding professional_header_def by (simp only: append.simps)
  have e: "mock_letter job_title company skills tone = ''\<newline>    '' @ ?m @ ''\<newline>    ''"
    unfolding mock_letter_def l0 l4 l5 l7 l8 by (simp only: append_assoc)
  have hd: "hd ?m = CHR ''D''" by (simp only: append.simps list.sel)
  have la: "last ?m = CHR '']''"
    by (simp only: last_append append_is_Nil_conv list.distinct simp_thms if_False last.simps if_True)
  have "py_strip (mock_letter job_title company skills tone) = ?m"
    unfolding e
  proof (rule py_strip_trim)
    show "?m \<noteq> []" by (simp only: append.simps list.distinct simp_thms)
    show "\<not> is_space (hd ?m)" unfolding hd by (simp add: is_space_def)
    show "\<not> is_space (last ?m)" unfolding la by (simp add: is_space_def)
  qed (simp_all add: is_space_def)
  then show ?thesis
    unfolding generate_cover_letter_def h letter_blocks_def
    by (simp only: py_join.simps append_assoc)
qed

lemma py_join_comma_Cons:
  "py_join '', '' (s # ss) = s @ concat (map (\<lambda>t. '', '' @ t) ss)"
  by (induction ss arbitrary: s) simp_all

lemma py_join_comma_first_two:
  "py_join '', '' (take 2 (s # ss)) = s @ (case ss of [] \<Rightarrow> [] | t # _ \<Rightarrow> '', '' @ t)"
  by (cases ss) (simp_all add: numeral_2_eq_2)

text \<open>
  Claim C8. For a skills list \<open>s # ss\<close> the returned text is the fixed contact header
  (the name between two \<^verbatim>\<open>**\<close>, then the phone and e-mail line and the URL line), a
  blank line, and a body that starts with the salutation and has four places filled from
  the skills and the tone: the first skill followed, when there is a second, by a
  comma, a space and the second; the tone; every skill, each but the first after a comma
  and a space; and the tone again. The rest of the body (\<open>A\<close> to \<open>E\<close>) depends on
  neither. A blank line lies between the first two skills and the first tone, and
  between the first tone and the full list.
\<close>

theorem composer_structure:
  "\<exists>A B C D E.
     (\<forall>s ss tone experience job_description.
        generate_cover_letter job_title company (s # ss) experience tone job_description =
          ''**[Your Name]**\<newline>[Your Phone Number] | [Your Email Address]\<newline>[Your LinkedIn/Portfolio URL]''
          @ ''\<newline>\<newline>''
          @ A @ (s @ (case ss of [] \<Rightarrow> [] | t # _ \<Rightarrow> '', '' @ t))
          @ B @ tone
          @ C @ (s @ concat (map (\<lambda>t. '', '' @ t) ss))
          @ D @ tone @ E)
     \<and> prefix ''Dear Hiring Team,'' A
     \<and> sublist ''\<newline>\<newline>'' B \<and> sublist ''\<newline>\<newline>'' C"
proof (intro exI conjI allI)
  let ?A = "''Dear Hiring Team,''
        @ ''\<newline>\<newline>''
        @ ''    I am writing to express my enthusiastic interest in the **''
        @ job_title
        @ ''** position at **''
        @ company
        @ ''**. Having closely followed ''
        @ company
        @ [CHR 0x27]
        @ ''s innovative work in [Relevant Industry], I am highly motivated by the opportunity to contribute my proven track record in ''"
  let ?B = "'', which align directly with the core demands of this role. My experience is centered on driving tangible results and leveraging technical expertise to achieve business objectives.''
        @ ''\<newline>\<newline>''
        @ ''    Throughout my career, I have consistently exceeded performance goals by focusing on measurable impact. For instance, in a previous role, I successfully [elaborate on a key achievement from the Experience Summary] resulting in a **[use a number/percentage, e.g., 25%] increase in [metric, e.g., operational efficiency]** and **[use another measurable outcome, e.g., $50,000] in cost savings** over a fiscal year. I am confident in my ability to bring the same level of **''"
  let ?C = "''** drive and commitment to excellence to your team, immediately addressing the need for a professional skilled in [another highlighted skill].''
        @ ''\<newline>\<newline>''
        @ ''    # FIX 2: Joining the full list of skills back into a comma-separated string for display\<newline>    My specific technical abilities, including **''"
  let ?D = "''**, are perfectly suited to the challenges outlined in the job description, especially in the areas of [mention a specific challenge or requirement]. I excel at translating complex technical requirements into actionable plans and thrive in fast-paced environments where **''"
  let ?E = "''** problem-solving is critical. This blend of hands-on skill and strategic thinking positions me as an ideal candidate.''
        @ ''\<newline>\<newline>''
        @ ''    I am eager for the opportunity to discuss how my background can directly benefit ''
        @ company
        @ ''. Thank you for your time and consideration.''
        @ ''\<newline>\<newline>''
        @ ''    Sincerely,''
        @ ''\<newline>\<newline>''
        @ ''    [Your Name]''"
  show "generate_cover_letter job_title company (s # ss) experience tone job_description =
          ''**[Your Name]**\<newline>[Your Phone Number] | [Your Email Address]\<newline>[Your LinkedIn/Portfolio URL]''
          @ ''\<newline>\<newline>''
          @ ?A @ (s @ (case ss of [] \<Rightarrow> [] | t # _ \<Rightarrow> '', '' @ t))
          @ ?B @ tone
          @ ?C @ (s @ concat (map (\<lambda>t. '', '' @ t) ss))
          @ ?D @ tone @ ?E"
    for s ss tone experience job_description
    unfolding letter_paragraphs letter_blocks_def py_join_comma_first_two py_join_comma_Cons
    by (simp only: py_join.simps append_assoc)
  show "prefix ''Dear Hiring Team,'' ?A" by (rule prefixI) (rule refl)
  show "sublist ''\<newline>\<newline>'' ?B" by (rule sublist_appendI)
  show "sublist ''\<newline>\<newline>'' ?C" by (rule sublist_appendI)
qed

theorem composer_structure_witness:
  "\<exists>A B C D E.
     generate_cover_letter ''Data Engineer'' ''Acme'' [''Python'', ''PyTorch'', ''SQL'']
         ''Built pipelines'' ''Formal'' [] =
          ''**[Your Name]**\<newline>[Your Phone Number] | [Your Email Address]\<newline>[Your LinkedIn/Portfolio URL]''
          @ ''\<newline>\<newline>''
          @ A @ ''Python, PyTorch'' @ B @ ''Formal'' @ C @ ''Python, PyTorch, SQL'' @ D @ ''Formal'' @ E"
proof -
  from composer_structure [of "''Data Engineer''" "''Acme''"]
  obtain A B C D E where
    "\<forall>s ss tone experience job_description.
        generate_cover_letter ''Data Engineer'' ''Acme'' (s # ss) experience tone job_description =
          ''**[Your Name]**\<newline>[Your Phone Number] | [Your Email Address]\<newline>[Your LinkedIn/Portfolio URL]''
          @ ''\<newline>\<newline>''
          @ A @ (s @ (case ss of [] \<Rightarrow> [] | t # _ \<Rightarrow> '', '' @ t))
          @ B @ tone
          @ C @ (s @ concat (map (\<lambda>t. '', '' @ t) ss))
          @ D @ tone @ E"
    by (elim exE conjE) (rule that)
  then have "generate_cover_letter ''Data Engineer'' ''Acme'' (''Python'' # [''PyTorch'', ''SQL''])
         ''Built pipelines'' ''Formal'' [] =
          ''**[Your Name]**\<newline>[Your Phone Number] | [Your Email Address]\<newline>[Your LinkedIn/Portfolio URL]''
          @ ''\<newline>\<newline>''
          @ A @ (''Python'' @ (case [''PyTorch'', ''SQL''] of [] \<Rightarrow> [] | t # _ \<Rightarrow> '', '' @ t))
          @ B @ ''Formal''
          @ C @ (''Python'' @ concat (map (\<lambda>t. '', '' @ t) [''PyTorch'', ''SQL'']))
          @ D @ ''Formal'' @ E"
    by (elim allE)
  then have "generate_cover_letter ''Data Engineer'' ''Acme'' [''Python'', ''PyTorch'', ''SQL'']
         ''Built pipelines'' ''Formal'' [] =
          ''**[Your Name]**\<newline>[Your Phone Number] | [Your Email Address]\<newline>[Your LinkedIn/Portfolio URL]''
          @ ''\<newline>\<newline>''
          @ A @ ''Python, PyTorch'' @ B @ ''Formal'' @ C @ ''Python, PyTorch, SQL'' @ D @ ''Formal'' @ E"
    by (simp only: list.case list.map concat.simps append.simps append_assoc)
  then show ?thesis by (intro exI)
qed

lemma letter_blocks_clean:
  assumes "\<not> sublist ''\<newline>\<newline>'' job_title" and "\<not> sublist ''\<newline>\<newline>'' company"
    and "\<not> sublist ''\<newline>\<newline>'' tone" and "\<forall>s \<in> set skills. \<not> sublist ''\<newline>\<newline>'' s"
  shows "\<forall>p \<in> set (letter_blocks job_title company skills tone).
           \<not> sublist ''\<newline>\<newline>'' (p @ butlast ''\<newline>\<newline>'')"
proof -
  from assms(4) have t: "\<forall>s \<in> set (take 2 skills). \<not> sublist ''\<newline>\<newline>'' s"
    by (auto dest: in_set_takeD)
  have b: "butlast ''\<newline>\<newline>'' = ''\<newline>''" by simp
  show ?thesis
    unfolding letter_blocks_def b
    using assms t
    by (simp only: list.set ball_simps append.simps append_assoc char.inject simp_thms
        blank_line_skip blank_line_single blank_line_var blank_line_join blank_line_free_join
        blank_line_end)
qed

lemma letter_blocks_nonblank:
  "\<forall>p \<in> set (letter_blocks job_title company skills tone). py_strip p \<noteq> []"
  unfolding letter_blocks_def
  by (simp only: list.set ball_simps append.simps simp_thms nonblank_here nonblank_later space_chars)

lemma letter_blocks_header:
  "\<forall>p \<in> set (tl (letter_blocks job_title company skills tone)).
     p \<noteq> hd (letter_blocks job_title company skills tone)"
  unfolding letter_blocks_def
  by (simp only: list.sel list.set ball_simps append.simps list.inject char.inject simp_thms)

lemma letter_blocks_length: "length (letter_blocks job_title company skills tone) = 8"
  unfolding letter_blocks_def by simp

lemma composed_letter_styles:
  assumes "\<not> sublist ''\<newline>\<newline>'' job_title" and "\<not> sublist ''\<newline>\<newline>'' company"
    and "\<not> sublist ''\<newline>\<newline>'' tone" and "\<forall>s \<in> set skills. \<not> sublist ''\<newline>\<newline>'' s"
  shows "\<exists>blocks.
           translate (generate_cover_letter job_title company skills experience tone job_description)
             = Inr blocks
           \<and> map snd blocks = Header # replicate 7 Body_Justify"
proof -
  let ?ps = "letter_blocks job_title company skills tone"
  have len: "length ?ps = 8" by (rule letter_blocks_length)
  then have ne: "?ps \<noteq> []" by auto
  then have ps: "?ps = hd ?ps # tl ?ps" by simp
  have "split_rec ''\<newline>\<newline>'' (- 1) (py_join ''\<newline>\<newline>'' ?ps) = ?ps"
  proof (rule split_rec_join)
    show "\<forall>p \<in> set ?ps. \<not> sublist ''\<newline>\<newline>'' (p @ butlast ''\<newline>\<newline>'')"
      using assms by (rule letter_blocks_clean)
  qed (use ne in simp_all)
  then have tr: "translate (generate_cover_letter job_title company skills experience tone job_description)
      = translate_loop (hd ?ps # tl ?ps) (hd ?ps # tl ?ps)"
    unfolding translate_eq letter_paragraphs using ps by simp
  from translate_loop_styles [OF letter_blocks_header, of job_title company skills tone]
  obtain blocks where b: "translate_loop (hd ?ps # tl ?ps) (hd ?ps # tl ?ps) = Inr blocks"
    and r: "map snd blocks =
               (if py_strip (hd ?ps) = [] then [] else [Header])
               @ replicate (length (filter (\<lambda>p. py_strip p \<noteq> []) (tl ?ps))) Body_Justify"
    by blast
  from ne have "hd ?ps \<in> set ?ps" by simp
  with letter_blocks_nonblank have h: "py_strip (hd ?ps) \<noteq> []" by blast
  have "\<forall>p \<in> set (tl ?ps). py_strip p \<noteq> []"
    using letter_blocks_nonblank [of job_title company skills tone] ne
    by (auto dest: list.set_sel(2))
  then have "filter (\<lambda>p. py_strip p \<noteq> []) (tl ?ps) = tl ?ps" by simp
  with len have "length (filter (\<lambda>p. py_strip p \<noteq> []) (tl ?ps)) = 7" by simp
  with r h have "map snd blocks = Header # replicate 7 Body_Justify" by simp
  with tr b show ?thesis by simp
qed

text \<open>
  Claim C3, amended. When no blank line occurs in the job title, the company, the tone
  or any skill, the translator turns the composed letter into one \<open>Header\<close> block
  followed by exactly seven \<open>Body_Justify\<close> blocks: the salutation, the four paragraphs,
  \<^verbatim>\<open>Sincerely,\<close> and \<^verbatim>\<open>[Your Name]\<close>.
\<close>

theorem composed_letter_blocks:
  assumes "\<not> sublist ''\<newline>\<newline>'' job_title" and "\<not> sublist ''\<newline>\<newline>'' company"
    and "\<not> sublist ''\<newline>\<newline>'' tone" and "\<forall>s \<in> set skills. \<not> sublist ''\<newline>\<newline>'' s"
  shows "\<exists>blocks.
           translate (generate_cover_letter job_title company skills experience tone job_description)
             = Inr blocks
           \<and> map snd blocks =
               [Header, Body_Justify, Body_Justify, Body_Justify, Body_Justify,
                Body_Justify, Body_Justify, Body_Justify]"
  using composed_letter_styles [OF assms] by (simp add: eval_nat_numeral)

theorem composed_letter_blocks_witness:
  "map snd (projr (translate (generate_cover_letter ''Data Engineer'' ''Acme'' [''SQL'']
                  ''Built pipelines'' ''Formal and Results-Driven'' [])))
     = [Header, Body_Justify, Body_Justify, Body_Justify, Body_Justify,
        Body_Justify, Body_Justify, Body_Justify]"
  by (rule styles_of_result, rule composed_letter_blocks) (rule blank_line_free_examples)+

text \<open>
  Claim C3 as stated (three to four body blocks) fails on the form's default input:
  there are seven body blocks.
\<close>

theorem seven_body_blocks_counterexample:
  "map snd (projr (translate (generate_cover_letter ''Senior Data Scientist'' ''Gemini Labs''
                  [''Python'', ''PyTorch'', ''A/B Testing'']
                  ''Led a team of 3 engineers'' ''Confident and Strategic'' [])))
     = Header # replicate 7 Body_Justify"
  by (rule styles_of_result, rule composed_letter_styles) (rule blank_line_free_examples)+

section \<open>The rendering step\<close>

text \<open>
  The loop is the translation followed, block by block, by the constructor: where the
  translation gives \<open>blocks\<close>, the story holds one object and one spacer for each of
  them, in order, and the first block the constructor rejects ends the loop.
\<close>

lemma story_loop_of_translate_loop:
  assumes "translate_loop paragraphs todo = Inr blocks"
  shows "story_loop paragraph paragraphs todo =
           foldr (\<lambda>(html_para, style) rest.
                    case paragraph html_para style of
                      Inl e \<Rightarrow> Inl e
                    | Inr p \<Rightarrow>
                        (case rest of
                           Inl e \<Rightarrow> Inl e
                         | Inr story \<Rightarrow>
                             Inr (Para p # Spacer 1 (if style = Header then 25 else 15) # story)))
                 blocks (Inr [])"
  using assms
proof (induction todo arbitrary: blocks)
  case Nil
  then show ?case by simp
next
  case (Cons p todo)
  show ?case
  proof (cases "py_strip p = []")
    case True
    with Cons show ?thesis by simp
  next
    case False
    with Cons.prems obtain h hd rest where
      b: "block_markup paragraphs p = Inr (h, hd)" and
      r: "translate_loop paragraphs todo = Inr rest" and
      bl: "blocks = (h, if hd then Header else Body_Justify) # rest"
      by (auto split: sum.splits)
    from Cons.IH [OF r] False b bl show ?thesis by (simp split: sum.splits)
  qed
qed

lemma create_pdf_of_translate:
  assumes "translate cover_letter_text = Inr blocks"
  shows "create_pdf paragraph doc_build cover_letter_text =
           (case foldr (\<lambda>(html_para, style) rest.
                    case paragraph html_para style of
                      Inl e \<Rightarrow> Inl e
                    | Inr p \<Rightarrow>
                        (case rest of
                           Inl e \<Rightarrow> Inl e
                         | Inr story \<Rightarrow>
                             Inr (Para p # Spacer 1 (if style = Header then 25 else 15) # story)))
                 blocks (Inr []) of
              Inl e \<Rightarrow> Inl e
            | Inr Story \<Rightarrow>
                (case doc_build Story of
                   Inl e \<Rightarrow> Inr ([''Error building PDF: '' @ e], None)
                 | Inr pdf_value \<Rightarrow> Inr ([], Some pdf_value)))"
proof -
  from assms have t: "translate_loop (split_rec ''\<newline>\<newline>'' (- 1) cover_letter_text)
      (split_rec ''\<newline>\<newline>'' (- 1) cover_letter_text) = Inr blocks"
    by (simp add: translate_eq)
  show ?thesis
    by (simp add: create_pdf_def py_split_def story_loop_of_translate_loop [OF t])
qed

text \<open>Inside the loop only the library's constructor can raise.\<close>

lemma story_loop_raises_in_paragraph:
  assumes "story_loop paragraph paragraphs todo = Inl e" and "set todo \<subseteq> set paragraphs"
  shows "\<exists>html_para style. paragraph html_para style = Inl e"
  using assms
proof (induction todo)
  case Nil
  then show ?case by simp
next
  case (Cons p todo)
  show ?case
  proof (cases "py_strip p = []")
    case True
    with Cons show ?thesis by simp
  next
    case False
    from Cons.prems have "p \<in> set paragraphs" by simp
    from block_markup_Inr [OF this] obtain r where r: "block_markup paragraphs p = Inr r" by blast
    obtain h hd where hh: "r = (h, hd)" by (cases r)
    show ?thesis
    proof (cases "paragraph h (if hd then Header else Body_Justify)")
      case (Inl e')
      with Cons.prems False r hh have "e' = e" by simp
      with Inl show ?thesis by blast
    next
      case (Inr q)
      with Cons.prems False r hh have "story_loop paragraph paragraphs todo = Inl e"
        by (simp split: sum.splits)
      with Cons show ?thesis by simp
    qed
  qed
qed

text \<open>Once the loop has built the story, a failing build is caught.\<close>

lemma create_pdf_build_caught:
  assumes "story_loop paragraph (split_rec ''\<newline>\<newline>'' (- 1) cover_letter_text)
             (split_rec ''\<newline>\<newline>'' (- 1) cover_letter_text) = Inr Story"
  shows "create_pdf paragraph doc_build cover_letter_text =
           (case doc_build Story of
              Inl e \<Rightarrow> Inr ([''Error building PDF: '' @ e], None)
            | Inr pdf_value \<Rightarrow> Inr ([], Some pdf_value))"
  using assms by (simp add: create_pdf_def py_split_def)

text \<open>
  Claim C9. The claim expects the bytes or \<^verbatim>\<open>None\<close> for every input. For the text
  \<^verbatim>\<open>x<y\<close> the loop calls the constructor on the markup \<^verbatim>\<open>x<y\<close>, outside the \<^verbatim>\<open>try\<close>:
  what the constructor raises leaves \<^verbatim>\<open>create_pdf\<close>, and only a failure of the build is
  turned into \<^verbatim>\<open>None\<close>.
\<close>

theorem create_pdf_uncaught:
  "create_pdf paragraph doc_build ''x<y'' =
     (case paragraph ''x<y'' Header of
        Inl e \<Rightarrow> Inl e
      | Inr p \<Rightarrow>
          (case doc_build [Para p, Spacer 1 25] of
             Inl e \<Rightarrow> Inr ([''Error building PDF: '' @ e], None)
           | Inr pdf_value \<Rightarrow> Inr ([], Some pdf_value)))"
proof -
  have s: "split_rec ''\<newline>\<newline>'' (- 1) ''x<y'' = [''x<y'']" by code_simp
  have n: "py_strip ''x<y'' \<noteq> []" by code_simp
  have b: "block_markup [''x<y''] ''x<y'' = Inr (''x<y'', True)" by code_simp
  show ?thesis
    by (simp add: create_pdf_def py_split_def s n b split: sum.splits)
qed

end
